theory Spec2Isabelle
  imports Main "HOL-Library.Sublist"
begin

section \<open>Python values used by the program\<close>

text \<open>
  Text is a \<open>string\<close> (a list of characters). The exceptions that reach a handler of
  the program are the members of \<open>exn\<close>; \<open>KeyboardInterrupt\<close> is the only one that
  is not a subclass of Python's \<open>Exception\<close>, so an \<open>except Exception\<close> clause
  lets it pass.
\<close>

datatype exn = KeyboardInterrupt | TimeoutExpired | NameError | OtherException

fun is_Exception :: "exn \<Rightarrow> bool" where
  "is_Exception KeyboardInterrupt = False"
| "is_Exception TimeoutExpired = True"
| "is_Exception NameError = True"
| "is_Exception OtherException = True"

text \<open>\<open>needle in haystack\<close> on Python strings: the needle occurs as a contiguous run.\<close>

fun contains :: "string \<Rightarrow> string \<Rightarrow> bool" where
  "contains [] needle = (needle = [])"
| "contains (c # s) needle = (prefix needle (c # s) \<or> contains s needle)"

text \<open>\<open>sep.join(parts)\<close>.\<close>

fun join :: "string \<Rightarrow> string list \<Rightarrow> string" where
  "join sep [] = []"
| "join sep [p] = p"
| "join sep (p # q # ps) = p @ sep @ join sep (q # ps)"

text \<open>
  \<open>str.strip()\<close> with no argument removes leading and trailing whitespace. The
  model has the whitespace of ASCII (tab to carriage return, the separators 0x1C to
  0x1F and the space); Python also strips the whitespace of Unicode beyond it, which
  is outside this model of text.
\<close>

definition is_space :: "char \<Rightarrow> bool" where
  "is_space c = (let n = (of_char c :: nat) in (9 \<le> n \<and> n \<le> 13) \<or> (28 \<le> n \<and> n \<le> 32))"

definition strip :: "string \<Rightarrow> string" where
  "strip s = rev (dropWhile is_space (rev (dropWhile is_space s)))"

text \<open>
  \<open>str.lower()\<close> on the letters A to Z; every other character is left as it is
  (Python also lower-cases the letters of Unicode beyond ASCII, which is outside this
  model of text).
\<close>

definition lower_char :: "char \<Rightarrow> char" where
  "lower_char c =
     (case map_of (zip ''ABCDEFGHIJKLMNOPQRSTUVWXYZ'' ''abcdefghijklmnopqrstuvwxyz'') c of
        Some l \<Rightarrow> l
      | None \<Rightarrow> c)"

definition lower :: "string \<Rightarrow> string" where
  "lower s = map lower_char s"

text \<open>
  The slice \<open>xs[i:]\<close>: a negative start counts from the end and is clamped at the
  front, a start past the end gives the empty list.
\<close>

definition slice_from :: "'a list \<Rightarrow> int \<Rightarrow> 'a list" where
  "slice_from xs i =
     (let n = int (length xs);
          start = (if i < 0 then max (n + i) 0 else min i n)
      in drop (nat start) xs)"

text \<open>
  \<open>subprocess.run(argv, ...)\<close> either completes with a return code, standard output
  and standard error, or raises. The behaviour of the machine at the moment of one
  call is a function from the argument vector to that outcome.
\<close>

datatype run_outcome = Completed int string string | Raises exn

type_synonym subprocess = "string list \<Rightarrow> run_outcome"

section \<open>ollama.py: the conversational-AI handler\<close>

record message =
  role :: string
  content :: string

record OllamaHandler =
  model :: string
  conversation_history :: "message list"
  max_history :: int
  system_prompt :: string
  available :: bool

definition newline :: string where
  "newline = [CHR 0x0A]"

definition rose_system_prompt :: string where
  "rose_system_prompt =
     ''You are ROSE (Raspberry Operated Speech Engine), a voice-activated cybersecurity assistant.'' @ newline @
     newline @
     ''Keep responses BRIEF (2-3 sentences) since they'll be spoken aloud. Only expand if asked.'' @ newline @
     newline @
     ''You help with:'' @ newline @
     ''- Security concepts and vulnerabilities'' @ newline @
     ''- Network security and penetration testing'' @ newline @
     ''- Linux security and hardening'' @ newline @
     ''- Security tools (nmap, wireshark, metasploit)'' @ newline @
     ''- Code security review'' @ newline @
     ''- CVE explanations'' @ newline @
     newline"

text \<open>
  \<open>_check_ollama\<close>: the result is the value stored in \<open>self.available\<close>. Both
  subprocess calls sit in one \<open>try\<close> whose handler is \<open>except Exception\<close>.
\<close>

definition check_ollama :: "subprocess \<Rightarrow> string \<Rightarrow> exn + bool" where
  "check_ollama run m =
     (case run [''which'', ''ollama''] of
        Raises e \<Rightarrow> if is_Exception e then Inr False else Inl e
      | Completed rc out err \<Rightarrow>
          if rc \<noteq> 0 then Inr False
          else (case run [''ollama'', ''list''] of
                  Raises e \<Rightarrow> if is_Exception e then Inr False else Inl e
                | Completed rc' out' err' \<Rightarrow>
                    if \<not> contains out' m then Inr False else Inr True))"

text \<open>\<open>OllamaHandler.__init__\<close>.\<close>

definition OllamaHandler_init :: "subprocess \<Rightarrow> string \<Rightarrow> exn + OllamaHandler" where
  "OllamaHandler_init run m =
     (case check_ollama run m of
        Inl e \<Rightarrow> Inl e
      | Inr a \<Rightarrow> Inr \<lparr>model = m, conversation_history = [], max_history = 2,
                      system_prompt = rose_system_prompt, available = a\<rparr>)"

definition is_available :: "OllamaHandler \<Rightarrow> bool" where
  "is_available h = available h"

text \<open>\<open>_format_messages\<close>: one part per message with a known role, then the cue.\<close>

fun format_part :: "message \<Rightarrow> string list" where
  "format_part msg =
     (if role msg = ''system'' then [''System: '' @ content msg @ newline]
      else if role msg = ''user'' then [''User: '' @ content msg @ newline]
      else if role msg = ''assistant'' then [''Assistant: '' @ content msg @ newline]
      else [])"

definition format_messages :: "message list \<Rightarrow> string" where
  "format_messages messages = join newline (concat (map format_part messages) @ [''Assistant:''])"

definition brief_suffix :: string where
  "brief_suffix = newline @ newline @ ''(Keep response brief - 2-3 sentences for voice output)''"

definition msg_unavailable :: string where
  "msg_unavailable = ''AI is not available. Please install Ollama and download a model.''"

definition msg_trouble :: string where
  "msg_trouble = ''I'm having trouble thinking right now. Please try again.''"

definition msg_slow :: string where
  "msg_slow = ''Sorry, I'm thinking too slowly. Try asking something simpler.''"

definition msg_wrong :: string where
  "msg_wrong = ''Something went wrong with my AI processing.''"

text \<open>
  The text stored as the user message (lines 138 to 139), the message list and the
  argument vector handed to \<open>subprocess.run\<close> (lines 125 to 151).
\<close>

definition ask_user_message :: "string \<Rightarrow> bool \<Rightarrow> string" where
  "ask_user_message user_message brief =
     (if brief then user_message @ brief_suffix else user_message)"

definition ask_messages :: "OllamaHandler \<Rightarrow> string \<Rightarrow> message list" where
  "ask_messages h um =
     [\<lparr>role = ''system'', content = system_prompt h\<rparr>] @ conversation_history h @
     [\<lparr>role = ''user'', content = um\<rparr>]"

definition ask_argv :: "OllamaHandler \<Rightarrow> string \<Rightarrow> bool \<Rightarrow> string list" where
  "ask_argv h user_message brief =
     [''ollama'', ''run'', model h,
      format_messages (ask_messages h (ask_user_message user_message brief))]"

text \<open>The history update of lines 164 to 175: two appends, then the length test and slice.\<close>

definition update_history :: "OllamaHandler \<Rightarrow> string \<Rightarrow> string \<Rightarrow> OllamaHandler" where
  "update_history h um response =
     (let hist = conversation_history h @
                   [\<lparr>role = ''user'', content = um\<rparr>, \<lparr>role = ''assistant'', content = response\<rparr>]
      in h\<lparr>conversation_history :=
              (if int (length hist) > max_history h * 2
               then slice_from hist (- max_history h * 2) else hist)\<rparr>)"

text \<open>
  \<open>OllamaHandler.ask\<close>. The result is the returned string (\<open>Inr\<close>) or the exception
  that leaves the method (\<open>Inl\<close>), with the handler as the call leaves it.
\<close>

definition ask :: "subprocess \<Rightarrow> OllamaHandler \<Rightarrow> string \<Rightarrow> bool \<Rightarrow> (exn + string) \<times> OllamaHandler" where
  "ask run h user_message brief =
     (if \<not> is_available h then (Inr msg_unavailable, h)
      else
        (case run (ask_argv h user_message brief) of
           Raises e \<Rightarrow>
             if e = TimeoutExpired then (Inr msg_slow, h)
             else if is_Exception e then (Inr msg_wrong, h)
             else (Inl e, h)
         | Completed rc out err \<Rightarrow>
             if rc \<noteq> 0 then (Inr msg_trouble, h)
             else
               (let response = strip out
                in (Inr response,
                    update_history h (ask_user_message user_message brief) response))))"

definition clear_history :: "OllamaHandler \<Rightarrow> OllamaHandler" where
  "clear_history h = h\<lparr>conversation_history := []\<rparr>"



text \<open>
  Calls on the handler one after the other, each with the behaviour of the machine at
  the moment of the call.
\<close>

datatype call = Ask subprocess string bool | Clear

fun do_call :: "call \<Rightarrow> OllamaHandler \<Rightarrow> OllamaHandler" where
  "do_call (Ask sp user_message brief) h = snd (ask sp h user_message brief)"
| "do_call Clear h = clear_history h"

fun do_calls :: "call list \<Rightarrow> OllamaHandler \<Rightarrow> OllamaHandler" where
  "do_calls [] h = h"
| "do_calls (c # cs) h = do_calls cs (do_call c h)"

text \<open>
  Question/answer exchanges: calls to \<open>ask\<close> only. An exchange is successful when
  the model process is run and exits with status 0; its entries are the user message
  as stored and what \<open>ask\<close> returned. The transcript of a run holds the entries of
  its successful exchanges, oldest first.
\<close>

type_synonym exchange = "subprocess \<times> string \<times> bool"

fun ask_each :: "exchange list \<Rightarrow> OllamaHandler \<Rightarrow> OllamaHandler" where
  "ask_each [] h = h"
| "ask_each ((sp, user_message, brief) # xs) h = ask_each xs (snd (ask sp h user_message brief))"

fun exchange_ok :: "exchange \<Rightarrow> OllamaHandler \<Rightarrow> bool" where
  "exchange_ok (sp, user_message, brief) h =
     (is_available h \<and>
      (case sp (ask_argv h user_message brief) of
         Completed rc out err \<Rightarrow> rc = 0
       | Raises e \<Rightarrow> False))"

fun exchange_entries :: "exchange \<Rightarrow> OllamaHandler \<Rightarrow> message list" where
  "exchange_entries (sp, user_message, brief) h =
     (case ask sp h user_message brief of
        (Inr response, h') \<Rightarrow>
          [\<lparr>role = ''user'', content = ask_user_message user_message brief\<rparr>,
           \<lparr>role = ''assistant'', content = response\<rparr>]
      | (Inl e, h') \<Rightarrow> [])"

fun successes :: "exchange list \<Rightarrow> OllamaHandler \<Rightarrow> nat" where
  "successes [] h = 0"
| "successes (x # xs) h = (if exchange_ok x h then 1 else 0) + successes xs (ask_each [x] h)"

fun transcript :: "exchange list \<Rightarrow> OllamaHandler \<Rightarrow> message list" where
  "transcript [] h = []"
| "transcript (x # xs) h =
     (if exchange_ok x h then exchange_entries x h else []) @ transcript xs (ask_each [x] h)"


section \<open>voice.py: the speech service\<close>

text \<open>
  What the microphone and the recogniser do in one listening window: they deliver a
  text or raise. \<open>listen\<close> lower-cases the text and turns every \<open>Exception\<close> into
  the empty string.
\<close>

datatype recognition = Recognized string | Fails exn

definition listen :: "recognition \<Rightarrow> exn + string" where
  "listen r =
     (case r of
        Recognized text \<Rightarrow> Inr (lower text)
      | Fails e \<Rightarrow> if is_Exception e then Inr [] else Inl e)"

section \<open>main.py: the command loop\<close>

text \<open>
  The state of the process: the AI handler and the texts handed to \<open>rose.speak\<close> so
  far (\<open>speak\<close> prints the text and catches every \<open>Exception\<close> of the speech engine).
\<close>

record state =
  ai :: OllamaHandler
  spoken :: "string list"

definition speak :: "state \<Rightarrow> string \<Rightarrow> state" where
  "speak st text = st\<lparr>spoken := spoken st @ [text]\<rparr>"

text \<open>
  What one turn of the loop meets: the listening window, the clock formatted by
  \<open>strftime\<close> for the time and date replies, and the machine for subprocess calls.
\<close>

record turn =
  recognition :: recognition
  time_str :: string
  date_str :: string
  run :: subprocess

text \<open>
  The answers an object bound to the global name \<open>updater\<close> would give. main.py binds
  \<open>sys\<close>, \<open>datetime\<close>, \<open>VoiceHandler\<close>, \<open>OllamaHandler\<close> and \<open>main\<close> only (lines
  13 to 19), and \<open>updater\<close> is no builtin: the name is unbound in the program.
\<close>

record updater_api =
  check_for_updates :: "bool \<times> string"
  perform_update :: bool
  get_current_version :: string

definition updater :: "updater_api option" where
  "updater = None"

text \<open>Which \<open>break\<close> left the loop: line 107, line 97 or line 123.\<close>

datatype break_reason = ExitIntent | UpdateRestart | Interrupt

datatype control = Next | Break break_reason

datatype intent =
  Wake | Greeting | TimeOfDay | Date | Status | Thanks | ClearHistory
  | CheckUpdates | Update | Version | Exit | Default

text \<open>
  The branch bodies of the \<open>if\<close>/\<open>elif\<close> chain (lines 55 to 117). The result is the
  exception raised in the body (\<open>Inl\<close>) or how the iteration goes on (\<open>Inr\<close>).
\<close>

fun action :: "updater_api option \<Rightarrow> turn \<Rightarrow> intent \<Rightarrow> string \<Rightarrow> state \<Rightarrow> (exn + control) \<times> state" where
  "action upd t Wake command st = (Inr Next, speak st ''Yes? How can I help you?'')"
| "action upd t Greeting command st = (Inr Next, speak st ''Hello! I'm here and listening.'')"
| "action upd t TimeOfDay command st = (Inr Next, speak st (''The time is '' @ time_str t @ ''.''))"
| "action upd t Date command st = (Inr Next, speak st (''Today is '' @ date_str t @ ''.''))"
| "action upd t Status command st =
     (Inr Next, speak st ''I'm functioning optimally. All systems nominal.'')"
| "action upd t Thanks command st = (Inr Next, speak st ''You're welcome!'')"
| "action upd t ClearHistory command st =
     (if is_available (ai st)
      then (Inr Next, speak (st\<lparr>ai := clear_history (ai st)\<rparr>) ''Conversation history cleared.'')
      else (Inr Next, speak st ''AI is not available.''))"
| "action upd t CheckUpdates command st =
     (let st1 = speak st ''Checking for updates...''
      in case upd of
           None \<Rightarrow> (Inl NameError, st1)
         | Some u \<Rightarrow>
             (case check_for_updates u of
                (has_updates, version) \<Rightarrow>
                  if has_updates
                  then (Inr Next, speak st1 (''Updates available. Version '' @ version @
                                             ''. Say update rose to install.''))
                  else (Inr Next, speak st1 ''You're running the latest version.'')))"
| "action upd t Update command st =
     (let st1 = speak st ''Starting update process. Creating backup...''
      in case upd of
           None \<Rightarrow> (Inl NameError, st1)
         | Some u \<Rightarrow>
             if perform_update u
             then (Inr (Break UpdateRestart),
                   speak st1 ''Update complete! I need to restart. Shutting down now.'')
             else (Inr Next, speak st1 ''Update failed. I'm still running the old version.''))"
| "action upd t Version command st =
     (case upd of
        None \<Rightarrow> (Inl NameError, st)
      | Some u \<Rightarrow> (Inr Next, speak st (''I'm running version '' @ get_current_version u @ ''.'')))"
| "action upd t Exit command st =
     (Inr (Break ExitIntent), speak st ''Understood. Rose shutting down. Goodbye.'')"
| "action upd t Default command st =
     (if is_available (ai st)
      then (let st1 = speak st ''Thinking...''
            in case ask (run t) (ai st1) command True of
                 (Inl e, a) \<Rightarrow> (Inl e, st1\<lparr>ai := a\<rparr>)
               | (Inr response, a) \<Rightarrow> (Inr Next, speak (st1\<lparr>ai := a\<rparr>) response))
      else (Inr Next, speak st (''I heard: '' @ command @ ''. I'm still learning new commands.'')))"

text \<open>The chain itself: the conditions of lines 55 to 109 in their order.\<close>

definition process_command :: "updater_api option \<Rightarrow> turn \<Rightarrow> string \<Rightarrow> state \<Rightarrow> (exn + control) \<times> state" where
  "process_command upd t command st =
     (if contains command ''hey rose'' \<or> contains command ''hello rose''
        then action upd t Wake command st
      else if contains command ''hello'' \<or> contains command ''hi''
        then action upd t Greeting command st
      else if contains command ''what time'' \<or> contains command ''tell me the time''
        then action upd t TimeOfDay command st
      else if contains command ''what day'' \<or> contains command ''what's the date''
        then action upd t Date command st
      else if contains command ''how are you''
        then action upd t Status command st
      else if contains command ''thank you'' \<or> contains command ''thanks''
        then action upd t Thanks command st
      else if contains command ''clear history'' \<or> contains command ''reset conversation''
        then action upd t ClearHistory command st
      else if contains command ''check for updates'' \<or> contains command ''check updates''
        then action upd t CheckUpdates command st
      else if contains command ''update rose'' \<or> contains command ''update yourself''
        then action upd t Update command st
      else if contains command ''what version'' \<or> contains command ''your version''
        then action upd t Version command st
      else if contains command ''exit'' \<or> contains command ''goodbye'' \<or> contains command ''shut down''
        then action upd t Exit command st
      else action upd t Default command st)"

text \<open>The body of the inner \<open>try\<close> (lines 47 to 117).\<close>

definition loop_body :: "updater_api option \<Rightarrow> turn \<Rightarrow> state \<Rightarrow> (exn + control) \<times> state" where
  "loop_body upd t st =
     (case listen (recognition t) of
        Inl e \<Rightarrow> (Inl e, st)
      | Inr command \<Rightarrow>
          if command = [] then (Inr Next, st)
          else process_command upd t command st)"

definition msg_interrupt :: string where
  "msg_interrupt = ''Manual interrupt received. Going offline.''"

definition msg_error :: string where
  "msg_error = ''An error occurred. Please check the console.''"

text \<open>
  One iteration with its handlers (lines 46 to 131): \<open>except KeyboardInterrupt\<close>
  first, then \<open>except Exception\<close>, which takes every other member of \<open>exn\<close>.
\<close>

definition loop_iteration :: "updater_api option \<Rightarrow> turn \<Rightarrow> state \<Rightarrow> control \<times> state" where
  "loop_iteration upd t st =
     (case loop_body upd t st of
        (Inr c, st') \<Rightarrow> (c, st')
      | (Inl e, st') \<Rightarrow>
          if e = KeyboardInterrupt then (Break Interrupt, speak st' msg_interrupt)
          else (Next, speak st' msg_error))"

text \<open>
  \<open>while True\<close> over the turns the environment supplies. When the supplied turns are
  used up the loop has not ended: it is listening for the next one.
\<close>

datatype loop_status = Broke break_reason | Listening

fun main_loop :: "updater_api option \<Rightarrow> turn list \<Rightarrow> state \<Rightarrow> loop_status \<times> state" where
  "main_loop upd [] st = (Listening, st)"
| "main_loop upd (t # ts) st =
     (case loop_iteration upd t st of
        (Next, st') \<Rightarrow> main_loop upd ts st'
      | (Break r, st') \<Rightarrow> (Broke r, st'))"

text \<open>
  \<open>main\<close>: construction of the two services inside the outer \<open>try\<close>, the greeting,
  the loop, and the exit code. \<open>voice_init\<close> is the exception the \<open>VoiceHandler\<close>
  constructor raises, if any.
\<close>

record startup =
  voice_init :: "exn option"
  startup_run :: subprocess

datatype exit_status = ExitCode int | Uncaught exn | Running

definition greet :: "OllamaHandler \<Rightarrow> state" where
  "greet a =
     (let st0 = speak \<lparr>ai = a, spoken = []\<rparr> ''System online. Rose activated and ready.'';
          st1 = (if is_available a
                 then speak st0 ''Artificial intelligence module loaded. I can help with cybersecurity questions.''
                 else speak st0 ''Running in basic mode. AI features unavailable.'')
      in speak st1 ''Say hey rose to get my attention, or say exit to shut down.'')"

definition main :: "startup \<Rightarrow> turn list \<Rightarrow> exit_status \<times> loop_status option \<times> string list" where
  "main s ts =
     (case voice_init s of
        Some e \<Rightarrow> (if is_Exception e then ExitCode 1 else Uncaught e, None, [])
      | None \<Rightarrow>
          (case OllamaHandler_init (startup_run s) ''qwen2.5:0.5b'' of
             Inl e \<Rightarrow> (if is_Exception e then ExitCode 1 else Uncaught e, None, [])
           | Inr a \<Rightarrow>
               (case main_loop updater ts (greet a) of
                  (Broke r, st) \<Rightarrow> (ExitCode 0, Some (Broke r), spoken st)
                | (Listening, st) \<Rightarrow> (Running, Some Listening, spoken st))))"

section \<open>The intent table of the specification\<close>

text \<open>
  The specification describes the matcher as a scan of an ordered list of rules, each
  a set of trigger phrases with an intent; the first rule with a trigger occurring in
  the utterance wins, and the default intent is selected when none does.
\<close>

definition intent_table :: "(string list \<times> intent) list" where
  "intent_table =
     [([''hey rose'', ''hello rose''], Wake),
      ([''hello'', ''hi''], Greeting),
      ([''what time'', ''tell me the time''], TimeOfDay),
      ([''what day'', ''what's the date''], Date),
      ([''how are you''], Status),
      ([''thank you'', ''thanks''], Thanks),
      ([''clear history'', ''reset conversation''], ClearHistory),
      ([''check for updates'', ''check updates''], CheckUpdates),
      ([''update rose'', ''update yourself''], Update),
      ([''what version'', ''your version''], Version),
      ([''exit'', ''goodbye'', ''shut down''], Exit)]"

definition rule_matches :: "string \<Rightarrow> string list \<times> intent \<Rightarrow> bool" where
  "rule_matches command r = list_ex (contains command) (fst r)"

definition select_intent :: "string \<Rightarrow> intent" where
  "select_intent command =
     (case find (rule_matches command) intent_table of
        None \<Rightarrow> Default
      | Some r \<Rightarrow> snd r)"

text \<open>
  Two descriptions of a turn used to state when the loop ends: the utterance heard
  selects the exit intent; or the operator's interrupt arrives, either while the loop
  listens or while \<open>ask\<close> waits for the model process in the default branch.
\<close>

definition exit_requested :: "turn \<Rightarrow> bool" where
  "exit_requested t =
     (case listen (recognition t) of
        Inl e \<Rightarrow> False
      | Inr command \<Rightarrow> select_intent command = Exit)"

definition interrupted :: "turn \<Rightarrow> state \<Rightarrow> bool" where
  "interrupted t st =
     (case listen (recognition t) of
        Inl e \<Rightarrow> e = KeyboardInterrupt
      | Inr command \<Rightarrow>
          command \<noteq> [] \<and> select_intent command = Default \<and> is_available (ai st) \<and>
          run t (ask_argv (ai st) command True) = Raises KeyboardInterrupt)"

section \<open>Sample environments\<close>

text \<open>
  A machine whose every subprocess call completes with the given output, one whose
  every call exits with the given status, and one whose every call raises.
\<close>

definition replies :: "string \<Rightarrow> subprocess" where
  "replies out = (\<lambda>argv. Completed 0 out [])"

definition exits :: "int \<Rightarrow> subprocess" where
  "exits rc = (\<lambda>argv. Completed rc [] [])"

definition raising :: "exn \<Rightarrow> subprocess" where
  "raising e = (\<lambda>argv. Raises e)"

text \<open>The handler as \<open>main\<close> constructs it on a machine with the model installed.\<close>

definition fresh_handler :: OllamaHandler where
  "fresh_handler =
     \<lparr>model = ''qwen2.5:0.5b'', conversation_history = [], max_history = 2,
      system_prompt = rose_system_prompt, available = True\<rparr>"

definition offline_handler :: OllamaHandler where
  "offline_handler = fresh_handler\<lparr>available := False\<rparr>"

text \<open>A turn in which the recogniser delivers the given text.\<close>

definition hears :: "string \<Rightarrow> subprocess \<Rightarrow> turn" where
  "hears text sp =
     \<lparr>recognition = Recognized text, time_str = ''09:30 AM'',
      date_str = ''Monday, January 06, 2025'', run = sp\<rparr>"

definition silence :: "exn \<Rightarrow> turn" where
  "silence e =
     \<lparr>recognition = Fails e, time_str = ''09:30 AM'',
      date_str = ''Monday, January 06, 2025'', run = raising OtherException\<rparr>"

text \<open>The loop's state with nothing spoken yet, the AI available or not.\<close>

definition start_state :: state where
  "start_state = \<lparr>ai = fresh_handler, spoken = []\<rparr>"

definition basic_state :: state where
  "basic_state = \<lparr>ai = offline_handler, spoken = []\<rparr>"

section \<open>Properties\<close>

lemma contains_sublist: "contains s t = sublist t s"
  by (induction s) (auto simp: sublist_Cons_right)

lemma msgs_distinct: "distinct [msg_unavailable, msg_trouble, msg_slow, msg_wrong]"
  by (simp add: msg_unavailable_def msg_trouble_def msg_slow_def msg_wrong_def)

lemma slice_from_last:
  assumes "1 \<le> m" "int (length xs) > m * 2"
  shows "slice_from xs (- m * 2) = drop (length xs - nat (2 * m)) xs"
proof -
  have "nat (int (length xs) + - m * 2) = length xs - nat (2 * m)" using assms by linarith
  then show ?thesis using assms by (simp add: slice_from_def Let_def max_def)
qed

lemma update_history_hist:
  assumes "1 \<le> max_history h"
  shows "conversation_history (update_history h um r) =
     (let hist = conversation_history h @ [\<lparr>role = ''user'', content = um\<rparr>, \<lparr>role = ''assistant'', content = r\<rparr>]
      in drop (length hist - nat (2 * max_history h)) hist)"
proof -
  let ?hist = "conversation_history h @ [\<lparr>role = ''user'', content = um\<rparr>, \<lparr>role = ''assistant'', content = r\<rparr>]"
  show ?thesis
  proof (cases "int (length ?hist) > max_history h * 2")
    case True
    then show ?thesis using slice_from_last[OF assms True] by (simp add: update_history_def Let_def)
  next
    case False
    then have "length ?hist - nat (2 * max_history h) = 0" by linarith
    then show ?thesis using False by (simp add: update_history_def Let_def)
  qed
qed

lemma drop_last_append:
  "drop (length (drop (length xs - n) xs @ ys) - n) (drop (length xs - n) xs @ ys) = drop (length (xs @ ys) - n) (xs @ ys)"
  by (cases "length xs \<le> n") (auto simp: drop_append add.commute)

lemma ask_fields:
  "max_history (snd (ask sp h q b)) = max_history h"
  "available (snd (ask sp h q b)) = available h"
  "model (snd (ask sp h q b)) = model h"
  "system_prompt (snd (ask sp h q b)) = system_prompt h"
  by (auto simp: ask_def update_history_def Let_def split: run_outcome.splits)

text \<open>
  Claim C5, as amended. \<open>ask\<close> returns a string on every backend outcome that is
  not a keyboard interrupt: the unavailability text when the AI is unavailable, the
  "trouble" text on a nonzero exit status, the "too slowly" text on a timeout, the
  "went wrong" text on any other \<open>Exception\<close>, and the stripped output otherwise;
  the four failure texts are pairwise distinct. A \<open>KeyboardInterrupt\<close> raised while
  the model process runs is caught by neither handler: it leaves \<open>ask\<close> and reaches
  the caller, the handler unchanged.
\<close>

theorem ask_always_answers:
  "(\<not> (is_available h \<and> sp (ask_argv h user_message brief) = Raises KeyboardInterrupt) \<longrightarrow>
      (\<exists>text. fst (ask sp h user_message brief) = Inr text)) \<and>
   (\<not> is_available h \<longrightarrow> fst (ask sp h user_message brief) = Inr msg_unavailable) \<and>
   (is_available h \<longrightarrow>
      (\<forall>rc out err. sp (ask_argv h user_message brief) = Completed rc out err \<longrightarrow>
         fst (ask sp h user_message brief) = Inr (if rc \<noteq> 0 then msg_trouble else strip out)) \<and>
      (sp (ask_argv h user_message brief) = Raises TimeoutExpired \<longrightarrow>
         fst (ask sp h user_message brief) = Inr msg_slow) \<and>
      (\<forall>e. sp (ask_argv h user_message brief) = Raises e \<longrightarrow>
         e \<noteq> TimeoutExpired \<longrightarrow> e \<noteq> KeyboardInterrupt \<longrightarrow>
         fst (ask sp h user_message brief) = Inr msg_wrong) \<and>
      (sp (ask_argv h user_message brief) = Raises KeyboardInterrupt \<longrightarrow>
         ask sp h user_message brief = (Inl KeyboardInterrupt, h))) \<and>
   distinct [msg_unavailable, msg_trouble, msg_slow, msg_wrong]"
proof -
  have d: "distinct [msg_unavailable, msg_trouble, msg_slow, msg_wrong]"
    by (rule msgs_distinct)
  show ?thesis
  proof (cases "is_available h")
    case False
    then show ?thesis using d by (simp add: ask_def)
  next
    case True
    show ?thesis
    proof (cases "sp (ask_argv h user_message brief)")
      case (Completed rc out err)
      then show ?thesis using True d by (simp add: ask_def Let_def)
    next
      case (Raises e)
      then show ?thesis using True d by (cases e) (simp_all add: ask_def)
    qed
  qed
qed

text \<open>
  Claim C9. When \<open>ask\<close> is called with the AI unavailable, or the model process
  exits with a nonzero status, or the subprocess call raises (a timeout or anything
  else), the handler is left as it was. The history differs after the call only if the
  AI was available and the model process exited with status 0.
\<close>

theorem ask_failure_keeps_history:
  "((\<not> is_available h \<or>
     (\<exists>rc out err. sp (ask_argv h user_message brief) = Completed rc out err \<and> rc \<noteq> 0) \<or>
     (\<exists>e. sp (ask_argv h user_message brief) = Raises e))
    \<longrightarrow> snd (ask sp h user_message brief) = h) \<and>
   (conversation_history (snd (ask sp h user_message brief)) \<noteq> conversation_history h
    \<longrightarrow> is_available h \<and> (\<exists>out err. sp (ask_argv h user_message brief) = Completed 0 out err))"
  by (auto simp: ask_def Let_def split: run_outcome.splits)

lemma join_snoc2:
  "\<exists>pre. join sep (ps @ [a, b]) = pre @ a @ sep @ b"
proof (induction sep ps rule: join.induct)
  case (1 sep)
  show ?case by simp
next
  case (2 sep p)
  show ?case by simp
next
  case (3 sep p q ps)
  then obtain pre where "join sep ((q # ps) @ [a, b]) = pre @ a @ sep @ b" by blast
  then have "join sep ((p # q # ps) @ [a, b]) = (p @ sep @ pre) @ a @ sep @ b" by simp
  then show ?case by blast
qed

lemma format_messages_user_last:
  "\<exists>pre. format_messages (ms @ [\<lparr>role = ''user'', content = um\<rparr>]) =
     pre @ ''User: '' @ um @ newline @ newline @ ''Assistant:''"
proof -
  obtain pre where "join newline (concat (map format_part ms) @ [''User: '' @ um @ newline, ''Assistant:'']) =
     pre @ (''User: '' @ um @ newline) @ newline @ ''Assistant:''"
    using join_snoc2 by blast
  then show ?thesis by (simp add: format_messages_def)
qed

lemma update_history_ends:
  assumes "0 \<le> max_history h"
  shows "\<exists>pre. conversation_history (update_history h um r) =
           pre @ [\<lparr>role = ''user'', content = um\<rparr>, \<lparr>role = ''assistant'', content = r\<rparr>]"
proof (cases "max_history h = 0")
  case True
  then show ?thesis by (simp add: update_history_def Let_def slice_from_def)
next
  case False
  then have m: "1 \<le> max_history h" using assms by simp
  let ?p = "[\<lparr>role = ''user'', content = um\<rparr>, \<lparr>role = ''assistant'', content = r\<rparr>]"
  have "length (conversation_history h @ ?p) - nat (2 * max_history h) \<le> length (conversation_history h)"
    using m by simp
  then have "drop (length (conversation_history h @ ?p) - nat (2 * max_history h)) (conversation_history h @ ?p)
     = drop (length (conversation_history h @ ?p) - nat (2 * max_history h)) (conversation_history h) @ ?p"
    by simp
  then show ?thesis using update_history_hist[OF m, of um r] by (simp add: Let_def)
qed

text \<open>
  Claim C10. With \<open>brief = True\<close> the user message is the caller's text followed by
  the fixed suffix, which differs from the caller's text; the prompt handed to the
  model process ends with that user message (as "User: ...") and the cue
  "Assistant:", and the prompt is all that \<open>ask\<close> consults of the machine; on
  success the entries appended to the history are that suffixed text as the user
  entry and the stripped output as the assistant entry.
\<close>

theorem ask_brief_suffix:
  "ask_user_message user_message True = user_message @ brief_suffix \<and>
   user_message @ brief_suffix \<noteq> user_message \<and>
   (\<exists>pre. ask_argv h user_message True =
      [''ollama'', ''run'', model h,
       pre @ ''User: '' @ user_message @ brief_suffix @ newline @ newline @ ''Assistant:'']) \<and>
   (sp (ask_argv h user_message True) = sp' (ask_argv h user_message True) \<longrightarrow>
      ask sp h user_message True = ask sp' h user_message True) \<and>
   (is_available h \<and> sp (ask_argv h user_message True) = Completed 0 out err \<longrightarrow>
      snd (ask sp h user_message True) = update_history h (user_message @ brief_suffix) (strip out) \<and>
      (0 \<le> max_history h \<longrightarrow>
        (\<exists>older. conversation_history (snd (ask sp h user_message True)) =
           older @ [\<lparr>role = ''user'', content = user_message @ brief_suffix\<rparr>,
                    \<lparr>role = ''assistant'', content = strip out\<rparr>])))"
proof -
  have 1: "ask_user_message user_message True = user_message @ brief_suffix"
    by (simp add: ask_user_message_def)
  have 2: "user_message @ brief_suffix \<noteq> user_message"
    by (simp add: brief_suffix_def)
  have 3: "\<exists>pre. ask_argv h user_message True =
      [''ollama'', ''run'', model h,
       pre @ ''User: '' @ user_message @ brief_suffix @ newline @ newline @ ''Assistant:'']"
    using format_messages_user_last[of "\<lparr>role = ''system'', content = system_prompt h\<rparr> # conversation_history h" "user_message @ brief_suffix"]
    by (simp add: ask_argv_def ask_messages_def 1)
  have 4: "sp (ask_argv h user_message True) = sp' (ask_argv h user_message True) \<longrightarrow>
      ask sp h user_message True = ask sp' h user_message True"
    by (simp add: ask_def)
  have 5: "is_available h \<and> sp (ask_argv h user_message True) = Completed 0 out err \<longrightarrow>
      snd (ask sp h user_message True) = update_history h (user_message @ brief_suffix) (strip out)"
    by (simp add: ask_def Let_def 1)
  show ?thesis using 1 2 3 4 5 update_history_ends[of h "user_message @ brief_suffix" "strip out"]
    by simp
qed

lemma init_fresh: "OllamaHandler_init (replies ''qwen2.5:0.5b'') ''qwen2.5:0.5b'' = Inr fresh_handler"
  by (simp add: OllamaHandler_init_def check_ollama_def replies_def fresh_handler_def)

lemma process_command_select:
  "process_command upd t command st = action upd t (select_intent command) command st"
  by (simp add: process_command_def select_intent_def intent_table_def rule_matches_def)

lemma select_intent_empty: "select_intent [] = Default"
  by (simp add: select_intent_def intent_table_def rule_matches_def)

lemma select_intent_lowest:
  "i < length intent_table \<Longrightarrow> rule_matches command (intent_table ! i) \<Longrightarrow>
   \<forall>j<i. \<not> rule_matches command (intent_table ! j) \<Longrightarrow>
   select_intent command = snd (intent_table ! i)"
proof -
  assume a: "i < length intent_table" "rule_matches command (intent_table ! i)"
    "\<forall>j<i. \<not> rule_matches command (intent_table ! j)"
  then have "find (rule_matches command) intent_table = Some (intent_table ! i)"
    unfolding find_Some_iff by blast
  then show ?thesis by (simp add: select_intent_def)
qed

lemma select_intent_none:
  "\<forall>r\<in>set intent_table. \<not> rule_matches command r \<Longrightarrow> select_intent command = Default"
proof -
  assume "\<forall>r\<in>set intent_table. \<not> rule_matches command r"
  then have "find (rule_matches command) intent_table = None"
    unfolding find_None_iff by blast
  then show ?thesis by (simp add: select_intent_def)
qed

lemma select_intent_Default_iff:
  "select_intent command = Default \<longleftrightarrow> (\<forall>r\<in>set intent_table. \<not> rule_matches command r)"
  by (auto simp: select_intent_def intent_table_def rule_matches_def)

lemma clear_history_phrase_greets: "select_intent ''clear history'' = Greeting"
  by (simp add: select_intent_def intent_table_def rule_matches_def)

lemma rule_matches_iff:
  "rule_matches command r \<longleftrightarrow> (\<exists>trigger\<in>set (fst r). \<exists>before after. command = before @ trigger @ after)"
  by (auto simp: rule_matches_def list_ex_iff contains_sublist sublist_def)

lemma loop_body_heard:
  "listen (recognition t) = Inr command \<Longrightarrow> command \<noteq> [] \<Longrightarrow>
   loop_body upd t st = action upd t (select_intent command) command st"
  by (simp add: loop_body_def process_command_select)

text \<open>
  Claim C1. For a non-empty utterance the loop executes the action of the intent the
  ordered table selects: when rule \<open>i\<close> matches (one of its triggers occurs somewhere
  in the utterance) and no rule before it does, the action executed is that of rule
  \<open>i\<close> and of no other rule; when no rule matches, it is the default action, which
  is the literal echo when the AI is unavailable (and the AI delegation otherwise).
\<close>

theorem first_matching_rule_wins:
  assumes "listen (recognition t) = Inr command" and "command \<noteq> []"
  shows "loop_body upd t st = action upd t (select_intent command) command st \<and>
    (\<forall>i<length intent_table.
       rule_matches command (intent_table ! i) \<and>
       (\<forall>j<i. \<not> rule_matches command (intent_table ! j)) \<longrightarrow>
       loop_body upd t st = action upd t (snd (intent_table ! i)) command st) \<and>
    ((\<forall>r\<in>set intent_table. \<not> rule_matches command r) \<longrightarrow>
       loop_body upd t st = action upd t Default command st \<and>
       (\<not> is_available (ai st) \<longrightarrow>
          loop_body upd t st =
            (Inr Next, speak st (''I heard: '' @ command @ ''. I'm still learning new commands.'')))) \<and>
    (\<forall>r. rule_matches command r \<longleftrightarrow>
       (\<exists>trigger\<in>set (fst r). \<exists>before after. command = before @ trigger @ after))"
proof -
  note body = loop_body_heard[OF assms, of upd st]
  have a: "\<forall>i<length intent_table.
       rule_matches command (intent_table ! i) \<and>
       (\<forall>j<i. \<not> rule_matches command (intent_table ! j)) \<longrightarrow>
       loop_body upd t st = action upd t (snd (intent_table ! i)) command st"
    using body select_intent_lowest by simp
  have b: "(\<forall>r\<in>set intent_table. \<not> rule_matches command r) \<longrightarrow>
       loop_body upd t st = action upd t Default command st \<and>
       (\<not> is_available (ai st) \<longrightarrow>
          loop_body upd t st =
            (Inr Next, speak st (''I heard: '' @ command @ ''. I'm still learning new commands.'')))"
    using body select_intent_none[of command] by simp
  show ?thesis using body a b rule_matches_iff by blast
qed

text \<open>
  Claim C7. When the utterance selects the clear-history intent: with the AI available
  the history becomes empty and "Conversation history cleared." is spoken; with the AI
  unavailable the handler is untouched and "AI is not available." is spoken.
\<close>

theorem clear_history_intent:
  assumes "listen (recognition t) = Inr command" and "select_intent command = ClearHistory"
  shows "(is_available (ai st) \<longrightarrow>
           loop_iteration upd t st =
             (Next, st\<lparr>ai := (ai st)\<lparr>conversation_history := []\<rparr>,
                        spoken := spoken st @ [''Conversation history cleared.'']\<rparr>)) \<and>
         (\<not> is_available (ai st) \<longrightarrow>
           loop_iteration upd t st = (Next, st\<lparr>spoken := spoken st @ [''AI is not available.'']\<rparr>))"
proof -
  have ne: "command \<noteq> []" using assms(2) select_intent_empty by auto
  show ?thesis
    using loop_body_heard[OF assms(1) ne, of upd st] assms(2)
    by (simp add: loop_iteration_def speak_def clear_history_def)
qed

text \<open>
  Claim C8. When the utterance selects the check-for-updates, update or version
  intent, the body raises \<open>NameError\<close> at the first use of \<open>updater\<close>: the only
  replies of the turn are the announcement made before that use (if any) and the
  generic apology, never a reply that reports a version or the result of an update.
\<close>

theorem updater_intents_raise:
  assumes "listen (recognition t) = Inr command"
    and "select_intent command \<in> {CheckUpdates, Update, Version}"
  shows "fst (loop_body updater t st) = Inl NameError \<and>
         loop_iteration updater t st =
           (Next, st\<lparr>spoken := spoken st @
                      (if select_intent command = CheckUpdates then [''Checking for updates...'']
                       else if select_intent command = Update
                         then [''Starting update process. Creating backup...'']
                       else []) @
                      [''An error occurred. Please check the console.'']\<rparr>)"
proof -
  have ne: "command \<noteq> []" using assms(2) select_intent_empty by auto
  show ?thesis
    using loop_body_heard[OF assms(1) ne, of updater st] assms(2)
    by (auto simp: loop_iteration_def speak_def updater_def msg_error_def Let_def)
qed

text \<open>
  Claim C4. When the body of an iteration raises an exception other than a keyboard
  interrupt, the iteration speaks the generic apology once, after whatever was spoken
  before the exception, and does not break: with no further turn supplied the loop is
  listening, in the state the apology left, and with further turns it runs them from
  that state.
\<close>

theorem action_error_recovered:
  assumes "loop_body upd t st = (Inl e, st')" and "e \<noteq> KeyboardInterrupt"
  shows "loop_iteration upd t st =
           (Next, st'\<lparr>spoken := spoken st' @ [''An error occurred. Please check the console.'']\<rparr>) \<and>
         main_loop upd [t] st =
           (Listening, st'\<lparr>spoken := spoken st' @ [''An error occurred. Please check the console.'']\<rparr>) \<and>
         main_loop upd (t # ts) st =
           main_loop upd ts (st'\<lparr>spoken := spoken st' @ [''An error occurred. Please check the console.'']\<rparr>)"
  using assms by (simp add: loop_iteration_def speak_def msg_error_def)

lemma ask_Inl:
  "fst (ask sp h q b) = Inl e \<longleftrightarrow>
     is_available h \<and> sp (ask_argv h q b) = Raises KeyboardInterrupt \<and> e = KeyboardInterrupt"
proof (cases "sp (ask_argv h q b)")
  case (Completed rc out err)
  then show ?thesis by (simp add: ask_def Let_def)
next
  case (Raises x)
  then show ?thesis by (cases x) (auto simp: ask_def)
qed

lemma listen_Inl: "listen r = Inl e \<Longrightarrow> e = KeyboardInterrupt"
  by (cases r; cases e) (auto simp: listen_def split: if_splits)

lemma action_Break:
  "fst (action updater t i command st) = Inr (Break r) \<longleftrightarrow> i = Exit \<and> r = ExitIntent"
  by (cases i) (auto simp: updater_def Let_def split: prod.splits sum.splits)

lemma action_Inl_KI:
  "fst (action updater t i command st) = Inl KeyboardInterrupt \<longleftrightarrow>
     i = Default \<and> is_available (ai st) \<and>
     run t (ask_argv (ai st) command True) = Raises KeyboardInterrupt"
proof (cases i)
  case Default
  show ?thesis
  proof (cases "ask (run t) (ai st) command True")
    case (Pair res a)
    then show ?thesis using Default ask_Inl[of "run t" "ai st" command True KeyboardInterrupt]
      by (cases res) (auto simp: speak_def Let_def)
  qed
qed (auto simp: updater_def Let_def)

lemma iteration_Break:
  "fst (loop_iteration updater t st) = Break r \<longleftrightarrow>
     (r = ExitIntent \<and> exit_requested t) \<or> (r = Interrupt \<and> interrupted t st)"
proof (cases "listen (recognition t)")
  case (Inl e)
  then show ?thesis
    using listen_Inl[OF Inl]
    by (auto simp: loop_iteration_def loop_body_def exit_requested_def interrupted_def)
next
  case (Inr command)
  show ?thesis
  proof (cases "command = []")
    case True
    then show ?thesis using Inr
      by (auto simp: loop_iteration_def loop_body_def exit_requested_def interrupted_def select_intent_empty)
  next
    case False
    obtain res st' where a: "action updater t (select_intent command) command st = (res, st')"
      by (cases "action updater t (select_intent command) command st")
    have body: "loop_body updater t st = (res, st')"
      using loop_body_heard[OF Inr False] a by simp
    show ?thesis
    proof (cases res)
      case (Inl e)
      have "e = KeyboardInterrupt \<longleftrightarrow> interrupted t st"
        using action_Inl_KI[of t "select_intent command" command st] a Inl Inr False
        by (auto simp: interrupted_def)
      moreover have "\<not> exit_requested t"
        using action_Break[of t "select_intent command" command st ExitIntent] a Inl Inr
        by (auto simp: exit_requested_def)
      ultimately show ?thesis using body Inl by (auto simp: loop_iteration_def)
    next
      case (Inr c)
      have "\<not> interrupted t st"
        using action_Inl_KI[of t "select_intent command" command st] a Inr \<open>listen (recognition t) = Inr command\<close>
        by (auto simp: interrupted_def)
      moreover have "c = Break r \<longleftrightarrow> r = ExitIntent \<and> exit_requested t"
        using action_Break[of t "select_intent command" command st r] a Inr \<open>listen (recognition t) = Inr command\<close>
        by (auto simp: exit_requested_def)
      ultimately show ?thesis using body Inr by (auto simp: loop_iteration_def)
    qed
  qed
qed

lemma main_loop_Broke:
  "fst (main_loop upd ts st) = Broke r \<Longrightarrow> \<exists>t\<in>set ts. \<exists>st'. fst (loop_iteration upd t st') = Break r"
proof (induction ts arbitrary: st)
  case Nil
  then show ?case by simp
next
  case (Cons t ts)
  obtain c st1 where it: "loop_iteration upd t st = (c, st1)" by (cases "loop_iteration upd t st")
  show ?case
  proof (cases c)
    case Next
    then have "fst (main_loop upd ts st1) = Broke r" using Cons.prems it by simp
    from Cons.IH[OF this] show ?thesis by auto
  next
    case (Break r')
    then have "r' = r" using Cons.prems it by simp
    then have "fst (loop_iteration upd t st) = Break r" using it Break by simp
    then show ?thesis by auto
  qed
qed

lemma exit_requested_says:
  "exit_requested t \<Longrightarrow> \<exists>command. listen (recognition t) = Inr command \<and>
      (contains command ''exit'' \<or> contains command ''goodbye'' \<or> contains command ''shut down'')"
  by (auto simp: exit_requested_def select_intent_def intent_table_def rule_matches_def
           split: sum.splits if_splits)

lemma check_ollama_Inl: "check_ollama sp m = Inl e \<Longrightarrow> e = KeyboardInterrupt"
  by (cases e) (auto simp: check_ollama_def split: run_outcome.splits if_splits)

lemma init_Inl: "OllamaHandler_init sp m = Inl e \<Longrightarrow> e = KeyboardInterrupt"
  using check_ollama_Inl by (auto simp: OllamaHandler_init_def split: sum.splits)

lemma main_exit_code:
  assumes "fst (main s ts) = ExitCode n"
  shows "(n = 1 \<and> (\<exists>e. voice_init s = Some e \<and> is_Exception e)) \<or>
     (n = 0 \<and> (\<exists>a r. OllamaHandler_init (startup_run s) ''qwen2.5:0.5b'' = Inr a \<and>
                      fst (main_loop updater ts (greet a)) = Broke r))"
proof (cases "voice_init s")
  case None
  show ?thesis
  proof (cases "OllamaHandler_init (startup_run s) ''qwen2.5:0.5b''")
    case (Inl e)
    then show ?thesis using assms None init_Inl[OF Inl] by (simp add: main_def)
  next
    case (Inr a)
    then show ?thesis using assms None
      by (auto simp: main_def split: prod.splits loop_status.splits)
  qed
next
  case (Some e)
  then show ?thesis using assms by (auto simp: main_def split: if_splits)
qed

text \<open>
  Claim C3. An iteration of the loop breaks exactly when the utterance selects the exit
  intent (it then contains "exit", "goodbye" or "shut down") or a keyboard interrupt
  arrives; every other turn is followed by the next one. So the loop, when it ends,
  ends by one of the two, and the process exits with code 1 only when a service could
  not be constructed and with code 0 only after such a turn. The \<open>break\<close> after a
  successful self-update is never reached, since \<open>updater\<close> is unbound.
\<close>

theorem loop_ends_only_by_exit_or_interrupt:
  "(fst (loop_iteration updater t st) = Break r \<longleftrightarrow>
      (r = ExitIntent \<and> exit_requested t) \<or> (r = Interrupt \<and> interrupted t st)) \<and>
   (exit_requested t \<longrightarrow>
      (\<exists>command. listen (recognition t) = Inr command \<and>
         (contains command ''exit'' \<or> contains command ''goodbye'' \<or> contains command ''shut down''))) \<and>
   (\<not> exit_requested t \<and> \<not> interrupted t st \<longrightarrow>
      main_loop updater (t # ts) st = main_loop updater ts (snd (loop_iteration updater t st))) \<and>
   (fst (main_loop updater ts st) = Broke r \<longrightarrow>
      (r = ExitIntent \<and> (\<exists>t\<in>set ts. exit_requested t)) \<or>
      (r = Interrupt \<and> (\<exists>t\<in>set ts. \<exists>st'. interrupted t st'))) \<and>
   (fst (main s ts) = ExitCode n \<longrightarrow>
      (n = 1 \<and> (\<exists>e. voice_init s = Some e \<and> is_Exception e)) \<or>
      (n = 0 \<and> (\<exists>t\<in>set ts. exit_requested t \<or> (\<exists>st'. interrupted t st'))))"
proof -
  have 3: "\<not> exit_requested t \<and> \<not> interrupted t st \<longrightarrow>
      main_loop updater (t # ts) st = main_loop updater ts (snd (loop_iteration updater t st))"
  proof
    assume h: "\<not> exit_requested t \<and> \<not> interrupted t st"
    obtain c st1 where it: "loop_iteration updater t st = (c, st1)"
      by (cases "loop_iteration updater t st")
    have "c = Next"
    proof (cases c)
      case (Break r')
      then show ?thesis using iteration_Break[of t st r'] it h by auto
    qed simp
    then show "main_loop updater (t # ts) st = main_loop updater ts (snd (loop_iteration updater t st))"
      using it by simp
  qed
  have 4: "fst (main_loop updater ts' st0) = Broke r \<longrightarrow>
      (r = ExitIntent \<and> (\<exists>t\<in>set ts'. exit_requested t)) \<or>
      (r = Interrupt \<and> (\<exists>t\<in>set ts'. \<exists>st'. interrupted t st'))" for ts' st0 r
    using main_loop_Broke[of updater ts' st0 r] iteration_Break by blast
  have 5: "fst (main s ts) = ExitCode n \<longrightarrow>
      (n = 1 \<and> (\<exists>e. voice_init s = Some e \<and> is_Exception e)) \<or>
      (n = 0 \<and> (\<exists>t\<in>set ts. exit_requested t \<or> (\<exists>st'. interrupted t st')))"
    using main_exit_code[of s ts n] 4 by blast
  show ?thesis using iteration_Break[of t st r] exit_requested_says[of t] 3 4[of ts st r] 5 by blast
qed

text \<open>
  Claim C6, as amended. For a non-empty utterance matching no rule while the AI is
  available, when \<open>ask\<close> returns, the loop has spoken "Thinking..." and then the
  returned string, and goes on. When the model process exited with status 0 the
  history is the old one with one user entry (the utterance with the brevity suffix)
  and one assistant entry (the reply) appended and then capped; otherwise the handler
  is unchanged.
\<close>

theorem default_delegates_to_ai:
  assumes "listen (recognition t) = Inr command" and "command \<noteq> []"
    and "\<forall>r\<in>set intent_table. \<not> rule_matches command r"
    and "is_available (ai st)"
    and "ask (run t) (ai st) command True = (Inr response, a)"
  shows "loop_iteration upd t st =
           (Next, st\<lparr>ai := a, spoken := spoken st @ [''Thinking...'', response]\<rparr>) \<and>
         (\<forall>out err. run t (ask_argv (ai st) command True) = Completed 0 out err \<longrightarrow>
            response = strip out \<and>
            conversation_history a =
              (let hist = conversation_history (ai st) @
                          [\<lparr>role = ''user'', content = command @ brief_suffix\<rparr>,
                           \<lparr>role = ''assistant'', content = response\<rparr>]
               in if int (length hist) > max_history (ai st) * 2
                  then slice_from hist (- max_history (ai st) * 2) else hist)) \<and>
         ((\<forall>out err. run t (ask_argv (ai st) command True) \<noteq> Completed 0 out err) \<longrightarrow>
            a = ai st)"
proof -
  have sel: "select_intent command = Default"
    using assms(3) by (rule select_intent_none)
  have 1: "loop_iteration upd t st =
           (Next, st\<lparr>ai := a, spoken := spoken st @ [''Thinking...'', response]\<rparr>)"
    using loop_body_heard[OF assms(1,2), of upd st] sel assms(4,5)
    by (simp add: loop_iteration_def speak_def Let_def)
  have 2: "\<forall>out err. run t (ask_argv (ai st) command True) = Completed 0 out err \<longrightarrow>
            response = strip out \<and>
            conversation_history a =
              (let hist = conversation_history (ai st) @
                          [\<lparr>role = ''user'', content = command @ brief_suffix\<rparr>,
                           \<lparr>role = ''assistant'', content = response\<rparr>]
               in if int (length hist) > max_history (ai st) * 2
                  then slice_from hist (- max_history (ai st) * 2) else hist)"
    using assms(4,5) by (auto simp: ask_def Let_def update_history_def ask_user_message_def)
  have 3: "(\<forall>out err. run t (ask_argv (ai st) command True) \<noteq> Completed 0 out err) \<longrightarrow> a = ai st"
    using assms(4,5) by (auto simp: ask_def Let_def split: run_outcome.splits if_splits)
  show ?thesis using 1 2 3 by blast
qed

lemma ask_keeps_cap:
  assumes "1 \<le> max_history h" and "int (length (conversation_history h)) \<le> 2 * max_history h"
  shows "int (length (conversation_history (snd (ask sp h q b)))) \<le> 2 * max_history h"
proof (cases "snd (ask sp h q b) = h")
  case True
  then show ?thesis using assms(2) by simp
next
  case False
  then obtain um r where "snd (ask sp h q b) = update_history h um r"
    by (auto simp: ask_def Let_def split: run_outcome.splits if_splits)
  then show ?thesis using update_history_hist[OF assms(1), of um r] assms(1)
    by (simp add: Let_def)
qed

lemma listen_hears: "listen (recognition (hears text sp)) = Inr (lower text)"
  by (simp add: hears_def listen_def)

text \<open>
  "hello rose what time is it" matches the first three rules and gets the reply of the
  first; "explain sql injection" matches none and, without the AI, is echoed.
\<close>

theorem first_matching_rule_wins_witness:
  "listen (recognition (hears ''hello rose what time is it'' (exits 1))) = Inr ''hello rose what time is it'' \<and>
   rule_matches ''hello rose what time is it'' (intent_table ! 0) \<and>
   rule_matches ''hello rose what time is it'' (intent_table ! 1) \<and>
   rule_matches ''hello rose what time is it'' (intent_table ! 2) \<and>
   loop_body updater (hears ''hello rose what time is it'' (exits 1)) start_state =
     (Inr Next, \<lparr>ai = fresh_handler, spoken = [''Yes? How can I help you?'']\<rparr>) \<and>
   listen (recognition (hears ''explain sql injection'' (exits 1))) = Inr ''explain sql injection'' \<and>
   loop_body updater (hears ''explain sql injection'' (exits 1)) basic_state =
     (Inr Next, \<lparr>ai = offline_handler,
                 spoken = [''I heard: explain sql injection. I'm still learning new commands.'']\<rparr>)"
proof -
  let ?c = "''hello rose what time is it''"
  let ?t = "hears ?c (exits 1)"
  have l: "listen (recognition ?t) = Inr ?c"
    by (simp add: listen_hears lower_def lower_char_def)
  have m0: "rule_matches ?c (intent_table ! 0)"
    and m1: "rule_matches ?c (intent_table ! 1)"
    and m2: "rule_matches ?c (intent_table ! 2)"
    by (simp_all add: rule_matches_def intent_table_def)
  have "0 < length intent_table \<and> rule_matches ?c (intent_table ! 0) \<and>
        (\<forall>j<0. \<not> rule_matches ?c (intent_table ! j))"
    using m0 by (simp add: intent_table_def)
  with first_matching_rule_wins[OF l, of updater start_state]
  have "loop_body updater ?t start_state = action updater ?t (snd (intent_table ! 0)) ?c start_state"
    by blast
  then have a: "loop_body updater ?t start_state =
     (Inr Next, \<lparr>ai = fresh_handler, spoken = [''Yes? How can I help you?'']\<rparr>)"
    by (simp add: intent_table_def start_state_def speak_def)
  let ?d = "''explain sql injection''"
  let ?u = "hears ?d (exits 1)"
  have l': "listen (recognition ?u) = Inr ?d"
    by (simp add: listen_hears lower_def lower_char_def)
  have none: "\<forall>r\<in>set intent_table. \<not> rule_matches ?d r"
    by (simp add: rule_matches_def intent_table_def)
  have off: "\<not> is_available (ai basic_state)"
    by (simp add: basic_state_def offline_handler_def fresh_handler_def is_available_def)
  from first_matching_rule_wins[OF l', of updater basic_state] none off
  have "loop_body updater ?u basic_state =
     (Inr Next, speak basic_state (''I heard: '' @ ?d @ ''. I'm still learning new commands.''))"
    by blast
  then have b: "loop_body updater ?u basic_state =
     (Inr Next, \<lparr>ai = offline_handler,
                 spoken = [''I heard: explain sql injection. I'm still learning new commands.'']\<rparr>)"
    by (simp add: basic_state_def speak_def)
  show ?thesis using l m0 m1 m2 a l' b by blast
qed

text \<open>
  One call for each backend outcome.
\<close>

theorem ask_always_answers_witness:
  "exits 1 (ask_argv fresh_handler ''what is a port scan'' True) \<noteq> Raises KeyboardInterrupt \<and>
   fst (ask (exits 1) fresh_handler ''what is a port scan'' True) = Inr msg_trouble \<and>
   fst (ask (raising TimeoutExpired) fresh_handler ''what is a port scan'' True) = Inr msg_slow \<and>
   fst (ask (raising OtherException) fresh_handler ''what is a port scan'' True) = Inr msg_wrong \<and>
   fst (ask (replies '' A probe. '') fresh_handler ''what is a port scan'' True) = Inr ''A probe.'' \<and>
   fst (ask (replies '' A probe. '') offline_handler ''what is a port scan'' True) = Inr msg_unavailable \<and>
   ask (raising KeyboardInterrupt) fresh_handler ''what is a port scan'' True =
     (Inl KeyboardInterrupt, fresh_handler)"
proof -
  have av: "is_available fresh_handler" "\<not> is_available offline_handler"
    by (simp_all add: fresh_handler_def offline_handler_def is_available_def)
  have s: "strip '' A probe. '' = ''A probe.''"
    by (simp add: strip_def is_space_def)
  show ?thesis
    using ask_always_answers[of fresh_handler "exits 1" "''what is a port scan''" True]
      ask_always_answers[of fresh_handler "raising TimeoutExpired" "''what is a port scan''" True]
      ask_always_answers[of fresh_handler "raising OtherException" "''what is a port scan''" True]
      ask_always_answers[of fresh_handler "replies '' A probe. ''" "''what is a port scan''" True]
      ask_always_answers[of offline_handler "replies '' A probe. ''" "''what is a port scan''" True]
      ask_always_answers[of fresh_handler "raising KeyboardInterrupt" "''what is a port scan''" True]
      av s
    by (simp add: exits_def raising_def replies_def)
qed

text \<open>
  Claim C5 as stated fails. With the AI available, a keyboard interrupt that arrives
  while the model process runs leaves \<open>ask\<close> as an exception: no string is returned.
\<close>

theorem ask_always_answers_counterexample:
  "is_available fresh_handler \<and>
   raising KeyboardInterrupt (ask_argv fresh_handler ''what is a port scan'' True) =
     Raises KeyboardInterrupt \<and>
   fst (ask (raising KeyboardInterrupt) fresh_handler ''what is a port scan'' True) =
     Inl KeyboardInterrupt"
  by (simp add: ask_def raising_def fresh_handler_def is_available_def)

lemma fresh_available: "is_available fresh_handler" "\<not> is_available offline_handler"
  by (simp_all add: fresh_handler_def offline_handler_def is_available_def)

lemma ask_replies:
  "is_available h \<Longrightarrow> ask (replies out) h q True =
     (Inr (strip out), update_history h (q @ brief_suffix) (strip out))"
  by (simp add: ask_def replies_def Let_def ask_user_message_def)

lemma ask_exits:
  "is_available h \<Longrightarrow> rc \<noteq> 0 \<Longrightarrow> ask (exits rc) h q b = (Inr msg_trouble, h)"
  by (simp add: ask_def exits_def)


lemma ask_ok:
  assumes "exchange_ok (sp, q, b) h"
  shows "\<exists>out err. sp (ask_argv h q b) = Completed 0 out err \<and>
         ask sp h q b = (Inr (strip out), update_history h (ask_user_message q b) (strip out))"
  using assms by (auto simp: ask_def Let_def split: run_outcome.splits)

lemma ask_not_ok: "\<not> exchange_ok (sp, q, b) h \<Longrightarrow> snd (ask sp h q b) = h"
  by (auto simp: ask_def Let_def split: run_outcome.splits)

lemma ask_each_max_history: "max_history (ask_each xs h) = max_history h"
  by (induction xs h rule: ask_each.induct) (simp_all add: ask_fields)

lemma transcript_length: "length (transcript xs h) = 2 * successes xs h"
proof (induction xs arbitrary: h)
  case Nil
  show ?case by simp
next
  case (Cons x xs)
  obtain sp q b where x: "x = (sp, q, b)" by (cases x)
  show ?case
  proof (cases "exchange_ok x h")
    case True
    from ask_ok[OF True[unfolded x]] obtain out where
      "ask sp h q b = (Inr (strip out), update_history h (ask_user_message q b) (strip out))"
      by blast
    then show ?thesis using True Cons.IH x by simp
  next
    case False
    then show ?thesis using Cons.IH by simp
  qed
qed

lemma ask_each_history:
  assumes "1 \<le> max_history h"
    and "0 < successes xs h \<or> int (length (conversation_history h)) \<le> 2 * max_history h"
  shows "conversation_history (ask_each xs h) =
     drop (length (conversation_history h @ transcript xs h) - nat (2 * max_history h))
          (conversation_history h @ transcript xs h)"
  using assms
proof (induction xs arbitrary: h)
  case Nil
  then show ?case by simp
next
  case (Cons x xs)
  obtain sp q b where x: "x = (sp, q, b)" by (cases x)
  show ?case
  proof (cases "exchange_ok x h")
    case True
    from ask_ok[OF True[unfolded x]] obtain out where
      a: "ask sp h q b = (Inr (strip out), update_history h (ask_user_message q b) (strip out))"
      by blast
    let ?h' = "update_history h (ask_user_message q b) (strip out)"
    let ?p = "[\<lparr>role = ''user'', content = ask_user_message q b\<rparr>,
               \<lparr>role = ''assistant'', content = strip out\<rparr>]"
    have m: "max_history ?h' = max_history h" by (simp add: update_history_def Let_def)
    have hh: "conversation_history ?h' =
        drop (length (conversation_history h @ ?p) - nat (2 * max_history h)) (conversation_history h @ ?p)"
      using update_history_hist[OF Cons.prems(1)] by (simp add: Let_def)
    have cap: "int (length (conversation_history ?h')) \<le> 2 * max_history ?h'"
      unfolding hh m using Cons.prems(1) by simp
    have "conversation_history (ask_each (x # xs) h) = conversation_history (ask_each xs ?h')"
      by (simp add: x a)
    also have "\<dots> = drop (length (conversation_history ?h' @ transcript xs ?h') - nat (2 * max_history h))
            (conversation_history ?h' @ transcript xs ?h')"
      using Cons.IH[of ?h'] cap Cons.prems(1) by (simp add: m)
    also have "\<dots> = drop (length ((conversation_history h @ ?p) @ transcript xs ?h') - nat (2 * max_history h))
            ((conversation_history h @ ?p) @ transcript xs ?h')"
      unfolding hh by (rule drop_last_append)
    finally show ?thesis using True by (simp add: x a)
  next
    case False
    have same: "ask_each [x] h = h" using ask_not_ok[OF False[unfolded x]] by (simp add: x)
    have "conversation_history (ask_each (x # xs) h) = conversation_history (ask_each xs h)"
      using same by (simp add: x)
    then show ?thesis using Cons.IH[of h] Cons.prems False same by simp
  qed
qed

lemma do_call_keeps_cap:
  assumes "1 \<le> max_history h" and "int (length (conversation_history h)) \<le> 2 * max_history h"
  shows "max_history (do_call c h) = max_history h \<and>
         int (length (conversation_history (do_call c h))) \<le> 2 * max_history h"
proof (cases c)
  case (Ask sp q b)
  then show ?thesis using ask_keeps_cap[OF assms, of sp q b] by (simp add: ask_fields)
next
  case Clear
  then show ?thesis using assms by (simp add: clear_history_def)
qed

lemma do_calls_keep_cap:
  "1 \<le> max_history h \<Longrightarrow> int (length (conversation_history h)) \<le> 2 * max_history h \<Longrightarrow>
   max_history (do_calls cs h) = max_history h \<and>
   int (length (conversation_history (do_calls cs h))) \<le> 2 * max_history h"
proof (induction cs arbitrary: h)
  case Nil
  then show ?case by simp
next
  case (Cons c cs)
  from do_call_keeps_cap[OF Cons.prems, of c]
  have 1: "max_history (do_call c h) = max_history h"
    and 2: "int (length (conversation_history (do_call c h))) \<le> 2 * max_history (do_call c h)"
    by simp_all
  from Cons.IH[of "do_call c h"] 1 2 Cons.prems(1) show ?case by simp
qed

text \<open>
  With a cap of at least 1 the history obeys the cap on every run of calls that starts
  within it, whatever the calls' outcomes; the handler as constructed has cap 2 and an
  empty history, so it obeys the cap throughout. Once \<open>max_history + 1\<close> or more
  exchanges of a run have succeeded, failed ones among them or not, the history holds
  exactly \<open>2 * max_history\<close> entries: the last ones of the transcript.
\<close>

lemma positive_cap_is_kept:
  assumes "1 \<le> max_history h"
  shows "(int (length (conversation_history h)) \<le> 2 * max_history h \<longrightarrow>
            int (length (conversation_history (do_calls cs h))) \<le> 2 * max_history (do_calls cs h)) \<and>
         (int (length (conversation_history h)) \<le> 2 * max_history h \<longrightarrow>
            int (length (conversation_history (snd (ask sp h q b)))) \<le> 2 * max_history h) \<and>
         (max_history h + 1 \<le> int (successes xs h) \<longrightarrow>
            int (length (conversation_history (ask_each xs h))) = 2 * max_history h \<and>
            conversation_history (ask_each xs h) =
              drop (length (transcript xs h) - nat (2 * max_history h)) (transcript xs h))"
proof -
  have 3: "int (length (conversation_history (ask_each xs h))) = 2 * max_history h \<and>
            conversation_history (ask_each xs h) =
              drop (length (transcript xs h) - nat (2 * max_history h)) (transcript xs h)"
    if s: "max_history h + 1 \<le> int (successes xs h)"
  proof -
    have pos: "0 < successes xs h" using s assms by linarith
    have ge: "nat (2 * max_history h) \<le> length (transcript xs h)"
      using s assms by (simp add: transcript_length)
    have "conversation_history (ask_each xs h) =
       drop (length (conversation_history h @ transcript xs h) - nat (2 * max_history h))
            (conversation_history h @ transcript xs h)"
      using ask_each_history[OF assms, of xs] pos by blast
    also have "\<dots> = drop (length (transcript xs h) - nat (2 * max_history h)) (transcript xs h)"
      using ge by (simp add: drop_append)
    finally have a: "conversation_history (ask_each xs h) =
       drop (length (transcript xs h) - nat (2 * max_history h)) (transcript xs h)" .
    have "int (length (conversation_history (ask_each xs h))) = 2 * max_history h"
      unfolding a using ge assms by simp
    with a show ?thesis by blast
  qed
  show ?thesis
    using do_calls_keep_cap[OF assms, of cs] ask_keeps_cap[OF assms, of sp q b] 3 by auto
qed

lemma constructed_handler_keeps_cap:
  assumes "OllamaHandler_init sp0 m = Inr h0"
  shows "max_history (do_calls cs h0) = 2 \<and>
         int (length (conversation_history (do_calls cs h0))) \<le> 2 * max_history (do_calls cs h0)"
proof -
  have "max_history h0 = 2" and "conversation_history h0 = []"
    using assms by (auto simp: OllamaHandler_init_def split: sum.splits)
  then show ?thesis using do_calls_keep_cap[of h0 cs] by simp
qed


lemma listen_plain:
  "listen (recognition (hears ''goodbye rose'' sp)) = Inr ''goodbye rose''"
  "listen (recognition (hears ''update rose'' sp)) = Inr ''update rose''"
  "listen (recognition (hears ''check for updates'' sp)) = Inr ''check for updates''"
  "listen (recognition (hears ''what version'' sp)) = Inr ''what version''"
  "listen (recognition (hears ''reset conversation'' sp)) = Inr ''reset conversation''"
  "listen (recognition (hears ''explain sql injection'' sp)) = Inr ''explain sql injection''"
  by (simp_all add: listen_hears lower_def lower_char_def)

lemma select_samples:
  "select_intent ''goodbye rose'' = Exit"
  "select_intent ''update rose'' = Update"
  "select_intent ''check for updates'' = CheckUpdates"
  "select_intent ''what version'' = Version"
  "select_intent ''reset conversation'' = ClearHistory"
  "select_intent ''explain sql injection'' = Default"
  by (simp_all add: select_intent_def intent_table_def rule_matches_def)

text \<open>
  "check for updates": the announcement, the \<open>NameError\<close>, the apology, and the loop
  listening again; a following "goodbye rose" is heard and ends the loop.
\<close>

theorem action_error_recovered_witness:
  "loop_body updater (hears ''check for updates'' (exits 1)) start_state =
     (Inl NameError, \<lparr>ai = fresh_handler, spoken = [''Checking for updates...'']\<rparr>) \<and>
   NameError \<noteq> KeyboardInterrupt \<and>
   loop_iteration updater (hears ''check for updates'' (exits 1)) start_state =
     (Next, \<lparr>ai = fresh_handler,
             spoken = [''Checking for updates...'', ''An error occurred. Please check the console.'']\<rparr>) \<and>
   main_loop updater [hears ''check for updates'' (exits 1)] start_state =
     (Listening, \<lparr>ai = fresh_handler,
                  spoken = [''Checking for updates...'', ''An error occurred. Please check the console.'']\<rparr>) \<and>
   main_loop updater [hears ''check for updates'' (exits 1), hears ''goodbye rose'' (exits 1)] start_state =
     (Broke ExitIntent,
      \<lparr>ai = fresh_handler,
       spoken = [''Checking for updates...'', ''An error occurred. Please check the console.'',
                 ''Understood. Rose shutting down. Goodbye.'']\<rparr>)"
proof -
  let ?t = "hears ''check for updates'' (exits 1)"
  let ?g = "hears ''goodbye rose'' (exits 1)"
  let ?s = "\<lparr>ai = fresh_handler,
             spoken = [''Checking for updates...'', ''An error occurred. Please check the console.'']\<rparr>"
  have b: "loop_body updater ?t start_state =
     (Inl NameError, \<lparr>ai = fresh_handler, spoken = [''Checking for updates...'']\<rparr>)"
    by (simp add: loop_body_heard[OF listen_plain(3)] select_samples updater_def speak_def start_state_def)
  have k: "NameError \<noteq> KeyboardInterrupt" by simp
  note T = action_error_recovered[OF b k, where ts = "[?g]"]
  have i: "loop_iteration updater ?t start_state = (Next, ?s)"
    using T by simp
  have one: "main_loop updater [?t] start_state = (Listening, ?s)"
    using T by (simp del: main_loop.simps)
  have g: "loop_iteration updater ?g ?s =
     (Break ExitIntent,
      \<lparr>ai = fresh_handler,
       spoken = [''Checking for updates...'', ''An error occurred. Please check the console.'',
                 ''Understood. Rose shutting down. Goodbye.'']\<rparr>)"
    by (simp add: loop_iteration_def loop_body_heard[OF listen_plain(1)] select_samples speak_def)
  have "main_loop updater [?t, ?g] start_state = main_loop updater [?g] ?s"
    using T by (simp del: main_loop.simps)
  then have two: "main_loop updater [?t, ?g] start_state =
     (Broke ExitIntent,
      \<lparr>ai = fresh_handler,
       spoken = [''Checking for updates...'', ''An error occurred. Please check the console.'',
                 ''Understood. Rose shutting down. Goodbye.'']\<rparr>)"
    by (simp add: g)
  show ?thesis using b k i one two by blast
qed

text \<open>
  "reset conversation" on a history of two entries, with and without the AI.
\<close>

theorem clear_history_intent_witness:
  "listen (recognition (hears ''reset conversation'' (exits 1))) = Inr ''reset conversation'' \<and>
   select_intent ''reset conversation'' = ClearHistory \<and>
   loop_iteration updater (hears ''reset conversation'' (exits 1))
     \<lparr>ai = fresh_handler\<lparr>conversation_history :=
             [\<lparr>role = ''user'', content = ''q''\<rparr>, \<lparr>role = ''assistant'', content = ''a''\<rparr>]\<rparr>,
      spoken = []\<rparr> =
     (Next, \<lparr>ai = fresh_handler, spoken = [''Conversation history cleared.'']\<rparr>) \<and>
   loop_iteration updater (hears ''reset conversation'' (exits 1))
     \<lparr>ai = offline_handler\<lparr>conversation_history :=
             [\<lparr>role = ''user'', content = ''q''\<rparr>, \<lparr>role = ''assistant'', content = ''a''\<rparr>]\<rparr>,
      spoken = []\<rparr> =
     (Next, \<lparr>ai = offline_handler\<lparr>conversation_history :=
             [\<lparr>role = ''user'', content = ''q''\<rparr>, \<lparr>role = ''assistant'', content = ''a''\<rparr>]\<rparr>,
             spoken = [''AI is not available.'']\<rparr>)"
  using clear_history_intent[OF listen_plain(5)[of "exits 1"] select_samples(5), where upd = updater and st =
      "\<lparr>ai = fresh_handler\<lparr>conversation_history :=
             [\<lparr>role = ''user'', content = ''q''\<rparr>, \<lparr>role = ''assistant'', content = ''a''\<rparr>]\<rparr>,
      spoken = []\<rparr>"]
    clear_history_intent[OF listen_plain(5)[of "exits 1"] select_samples(5), where upd = updater and st =
      "\<lparr>ai = offline_handler\<lparr>conversation_history :=
             [\<lparr>role = ''user'', content = ''q''\<rparr>, \<lparr>role = ''assistant'', content = ''a''\<rparr>]\<rparr>,
      spoken = []\<rparr>"]
    listen_plain(5) select_samples(5)
  by (simp add: is_available_def fresh_handler_def offline_handler_def)

text \<open>
  One utterance for each of the three intents.
\<close>

theorem updater_intents_raise_witness:
  "listen (recognition (hears ''check for updates'' (exits 1))) = Inr ''check for updates'' \<and>
   select_intent ''check for updates'' \<in> {CheckUpdates, Update, Version} \<and>
   fst (loop_body updater (hears ''check for updates'' (exits 1)) start_state) = Inl NameError \<and>
   loop_iteration updater (hears ''check for updates'' (exits 1)) start_state =
     (Next, \<lparr>ai = fresh_handler,
             spoken = [''Checking for updates...'', ''An error occurred. Please check the console.'']\<rparr>) \<and>
   loop_iteration updater (hears ''update rose'' (exits 1)) start_state =
     (Next, \<lparr>ai = fresh_handler,
             spoken = [''Starting update process. Creating backup...'',
                       ''An error occurred. Please check the console.'']\<rparr>) \<and>
   loop_iteration updater (hears ''what version'' (exits 1)) start_state =
     (Next, \<lparr>ai = fresh_handler, spoken = [''An error occurred. Please check the console.'']\<rparr>)"
proof -
  have s: "select_intent ''check for updates'' \<in> {CheckUpdates, Update, Version}"
    "select_intent ''update rose'' \<in> {CheckUpdates, Update, Version}"
    "select_intent ''what version'' \<in> {CheckUpdates, Update, Version}"
    by (simp_all add: select_samples)
  show ?thesis
    using updater_intents_raise[OF listen_plain(3)[of "exits 1"] s(1), where st = start_state]
      updater_intents_raise[OF listen_plain(2)[of "exits 1"] s(2), where st = start_state]
      updater_intents_raise[OF listen_plain(4)[of "exits 1"] s(3), where st = start_state]
      listen_plain(3) s(1)
    by (simp add: select_samples start_state_def)
qed

text \<open>
  One call for each failure path.
\<close>

theorem ask_failure_keeps_history_witness:
  "\<not> is_available offline_handler \<and>
   snd (ask (replies ''a1'') offline_handler ''q1'' True) = offline_handler \<and>
   exits 1 (ask_argv fresh_handler ''q1'' True) = Completed 1 [] [] \<and>
   snd (ask (exits 1) fresh_handler ''q1'' True) = fresh_handler \<and>
   raising TimeoutExpired (ask_argv fresh_handler ''q1'' True) = Raises TimeoutExpired \<and>
   snd (ask (raising TimeoutExpired) fresh_handler ''q1'' True) = fresh_handler \<and>
   snd (ask (raising OtherException) fresh_handler ''q1'' True) = fresh_handler"
  using ask_failure_keeps_history[of offline_handler "replies ''a1''" "''q1''" True]
    ask_failure_keeps_history[of fresh_handler "exits 1" "''q1''" True]
    ask_failure_keeps_history[of fresh_handler "raising TimeoutExpired" "''q1''" True]
    ask_failure_keeps_history[of fresh_handler "raising OtherException" "''q1''" True]
    fresh_available
  by (simp add: exits_def raising_def)

text \<open>
  "goodbye rose" ends the loop, as does an interrupt while listening or while the model
  process runs; "update rose" does not, and the loop goes on with the next turn.
\<close>

theorem loop_ends_only_by_exit_or_interrupt_witness:
  "exit_requested (hears ''goodbye rose'' (exits 1)) \<and>
   fst (loop_iteration updater (hears ''goodbye rose'' (exits 1)) start_state) = Break ExitIntent \<and>
   interrupted (silence KeyboardInterrupt) start_state \<and>
   fst (loop_iteration updater (silence KeyboardInterrupt) start_state) = Break Interrupt \<and>
   interrupted (hears ''explain sql injection'' (raising KeyboardInterrupt)) start_state \<and>
   fst (loop_iteration updater (hears ''explain sql injection'' (raising KeyboardInterrupt)) start_state) =
     Break Interrupt \<and>
   \<not> exit_requested (hears ''update rose'' (exits 1)) \<and>
   \<not> interrupted (hears ''update rose'' (exits 1)) start_state \<and>
   main_loop updater [hears ''update rose'' (exits 1), hears ''goodbye rose'' (exits 1)] start_state =
     main_loop updater [hears ''goodbye rose'' (exits 1)]
       (snd (loop_iteration updater (hears ''update rose'' (exits 1)) start_state))"
proof -
  have e: "exit_requested (hears ''goodbye rose'' (exits 1))"
    by (simp add: exit_requested_def listen_plain select_samples)
  have i: "interrupted (silence KeyboardInterrupt) start_state"
    by (simp add: interrupted_def silence_def listen_def)
  have j: "interrupted (hears ''explain sql injection'' (raising KeyboardInterrupt)) start_state"
    by (simp add: interrupted_def listen_plain select_samples start_state_def fresh_available)
       (simp add: hears_def raising_def)
  have n: "\<not> exit_requested (hears ''update rose'' (exits 1))"
    "\<not> interrupted (hears ''update rose'' (exits 1)) start_state"
    by (simp_all add: exit_requested_def interrupted_def listen_plain select_samples)
  note T = loop_ends_only_by_exit_or_interrupt[where ts = "[hears ''goodbye rose'' (exits 1)]"]
  have b1: "fst (loop_iteration updater (hears ''goodbye rose'' (exits 1)) start_state) = Break ExitIntent"
    using T[where t = "hears ''goodbye rose'' (exits 1)" and st = start_state and r = ExitIntent,
            THEN conjunct1] e by simp
  have b2: "fst (loop_iteration updater (silence KeyboardInterrupt) start_state) = Break Interrupt"
    using T[where t = "silence KeyboardInterrupt" and st = start_state and r = Interrupt,
            THEN conjunct1] i by simp
  have b3: "fst (loop_iteration updater (hears ''explain sql injection'' (raising KeyboardInterrupt)) start_state) =
     Break Interrupt"
    using T[where t = "hears ''explain sql injection'' (raising KeyboardInterrupt)" and st = start_state
              and r = Interrupt, THEN conjunct1] j by simp
  have b4: "main_loop updater [hears ''update rose'' (exits 1), hears ''goodbye rose'' (exits 1)] start_state =
     main_loop updater [hears ''goodbye rose'' (exits 1)]
       (snd (loop_iteration updater (hears ''update rose'' (exits 1)) start_state))"
    using T[where t = "hears ''update rose'' (exits 1)" and st = start_state,
            THEN conjunct2, THEN conjunct2, THEN conjunct1] n by (simp del: main_loop.simps)
  show ?thesis using e i j n b1 b2 b3 b4 by (simp del: main_loop.simps)
qed

lemma no_rule_sql: "\<not> list_ex (rule_matches ''explain sql injection'') intent_table"
  by (simp add: rule_matches_def intent_table_def)

lemma strip_attack: "strip '' It is an attack. '' = ''It is an attack.''"
  by (simp add: strip_def is_space_def)

lemma fresh_first_exchange:
  "conversation_history (update_history fresh_handler um r) =
     [\<lparr>role = ''user'', content = um\<rparr>, \<lparr>role = ''assistant'', content = r\<rparr>]"
  by (simp add: update_history_def fresh_handler_def Let_def)

text \<open>
  The scenario of the specification with a model process that answers.
\<close>

theorem default_delegates_to_ai_witness:
  "listen (recognition (hears ''explain sql injection'' (replies '' It is an attack. ''))) =
     Inr ''explain sql injection'' \<and>
   ''explain sql injection'' \<noteq> [] \<and>
   \<not> list_ex (rule_matches ''explain sql injection'') intent_table \<and>
   is_available (ai start_state) \<and>
   ask (run (hears ''explain sql injection'' (replies '' It is an attack. ''))) (ai start_state)
     ''explain sql injection'' True =
     (Inr ''It is an attack.'',
      update_history fresh_handler (''explain sql injection'' @ brief_suffix) ''It is an attack.'') \<and>
   loop_iteration updater (hears ''explain sql injection'' (replies '' It is an attack. '')) start_state =
     (Next, \<lparr>ai = update_history fresh_handler (''explain sql injection'' @ brief_suffix) ''It is an attack.'',
             spoken = [''Thinking...'', ''It is an attack.'']\<rparr>) \<and>
   conversation_history
     (update_history fresh_handler (''explain sql injection'' @ brief_suffix) ''It is an attack.'') =
     [\<lparr>role = ''user'', content = ''explain sql injection'' @ brief_suffix\<rparr>,
      \<lparr>role = ''assistant'', content = ''It is an attack.''\<rparr>]"
proof -
  let ?c = "''explain sql injection''"
  let ?t = "hears ?c (replies '' It is an attack. '')"
  let ?a = "update_history fresh_handler (?c @ brief_suffix) ''It is an attack.''"
  have l: "listen (recognition ?t) = Inr ?c" by (rule listen_plain)
  have ne: "?c \<noteq> []" by simp
  have none: "\<forall>r\<in>set intent_table. \<not> rule_matches ?c r"
    using no_rule_sql by (simp add: list_ex_iff)
  have av: "is_available (ai start_state)"
    by (simp add: start_state_def fresh_available)
  have r: "run ?t = replies '' It is an attack. ''" by (simp add: hears_def)
  have st: "ai start_state = fresh_handler" by (simp add: start_state_def)
  have k: "ask (run ?t) (ai start_state) ?c True = (Inr ''It is an attack.'', ?a)"
    unfolding r st by (simp only: ask_replies[OF fresh_available(1)] strip_attack)
  have "loop_iteration updater ?t start_state =
     (Next, start_state\<lparr>ai := ?a, spoken := spoken start_state @ [''Thinking...'', ''It is an attack.'']\<rparr>)"
    using default_delegates_to_ai[OF l ne none av k, where upd = updater] by (rule conjunct1)
  then have it: "loop_iteration updater ?t start_state =
     (Next, \<lparr>ai = ?a, spoken = [''Thinking...'', ''It is an attack.'']\<rparr>)"
    by (simp add: start_state_def)
  show ?thesis using l ne no_rule_sql av k it fresh_first_exchange by blast
qed

text \<open>
  Claim C6 as stated fails. The same utterance with the AI available and a model
  process that exits with status 1: the loop speaks "Thinking..." and the text
  \<open>ask\<close> returned, and the history has not grown.
\<close>

theorem default_delegates_to_ai_counterexample:
  "listen (recognition (hears ''explain sql injection'' (exits 1))) = Inr ''explain sql injection'' \<and>
   \<not> list_ex (rule_matches ''explain sql injection'') intent_table \<and>
   is_available (ai start_state) \<and>
   loop_iteration updater (hears ''explain sql injection'' (exits 1)) start_state =
     (Next, \<lparr>ai = fresh_handler,
             spoken = [''Thinking...'', ''I'm having trouble thinking right now. Please try again.'']\<rparr>) \<and>
   conversation_history (ai (snd (loop_iteration updater (hears ''explain sql injection'' (exits 1)) start_state)))
     = conversation_history (ai start_state)"
proof -
  let ?c = "''explain sql injection''"
  let ?t = "hears ?c (exits 1)"
  have l: "listen (recognition ?t) = Inr ?c" by (rule listen_plain)
  have av: "is_available (ai start_state)"
    by (simp add: start_state_def fresh_available)
  have r: "run ?t = exits 1" by (simp add: hears_def)
  have st: "ai start_state = fresh_handler" by (simp add: start_state_def)
  have k: "ask (run ?t) (ai start_state) ?c True = (Inr msg_trouble, fresh_handler)"
    unfolding r st by (simp add: ask_exits fresh_available)
  have b: "loop_body updater ?t start_state = action updater ?t Default ?c start_state"
    using loop_body_heard[OF l, of updater start_state] by (simp add: select_samples)
  have it: "loop_iteration updater ?t start_state =
     (Next, \<lparr>ai = fresh_handler,
             spoken = [''Thinking...'', ''I'm having trouble thinking right now. Please try again.'']\<rparr>)"
    unfolding loop_iteration_def b using av k
    by (simp add: speak_def Let_def) (simp add: start_state_def msg_trouble_def)
  show ?thesis using l no_rule_sql av it by (simp add: start_state_def)
qed

text \<open>
  The first question on the handler as constructed: the prompt and the two entries.
\<close>

theorem ask_brief_suffix_witness:
  "is_available fresh_handler \<and>
   replies ''pong'' (ask_argv fresh_handler ''ping'' True) = Completed 0 ''pong'' [] \<and>
   0 \<le> max_history fresh_handler \<and>
   ask_argv fresh_handler ''ping'' True =
     [''ollama'', ''run'', ''qwen2.5:0.5b'',
      ''System: '' @ rose_system_prompt @ newline @ newline @
      ''User: '' @ ''ping'' @ brief_suffix @ newline @ newline @ ''Assistant:''] \<and>
   conversation_history (snd (ask (replies ''pong'') fresh_handler ''ping'' True)) =
     [\<lparr>role = ''user'', content = ''ping'' @ brief_suffix\<rparr>,
      \<lparr>role = ''assistant'', content = ''pong''\<rparr>]"
proof -
  have r: "replies ''pong'' (ask_argv fresh_handler ''ping'' True) = Completed 0 ''pong'' []"
    by (simp add: replies_def)
  have m: "0 \<le> max_history fresh_handler" by (simp add: fresh_handler_def)
  have s: "strip ''pong'' = ''pong''" by (simp add: strip_def is_space_def)
  have p: "ask_argv fresh_handler ''ping'' True =
     [''ollama'', ''run'', ''qwen2.5:0.5b'',
      ''System: '' @ rose_system_prompt @ newline @ newline @
      ''User: '' @ ''ping'' @ brief_suffix @ newline @ newline @ ''Assistant:'']"
    by (simp add: ask_argv_def ask_messages_def format_messages_def fresh_handler_def
        ask_user_message_def)
  have "snd (ask (replies ''pong'') fresh_handler ''ping'' True) =
          update_history fresh_handler (''ping'' @ brief_suffix) (strip ''pong'')"
    using ask_brief_suffix[of "''ping''" fresh_handler "replies ''pong''" "replies ''pong''" "''pong''" "[]"]
      fresh_available(1) r by blast
  then have h: "conversation_history (snd (ask (replies ''pong'') fresh_handler ''ping'' True)) =
     [\<lparr>role = ''user'', content = ''ping'' @ brief_suffix\<rparr>,
      \<lparr>role = ''assistant'', content = ''pong''\<rparr>]"
    by (simp only: fresh_first_exchange s)
  show ?thesis using fresh_available(1) r m p h by blast
qed

end
